theory Spec2Isabelle
  imports Complex_Main
begin

section \<open>Exceptions\<close>

text \<open>
  The exceptions of \<^verbatim>\<open>common/structs.py\<close> that the modelled classes raise or handle.
  and those of the library calls they make. \<open>Exception msg\<close> stands for any other
  instance of Python's \<^verbatim>\<open>Exception\<close> class raised by a collaborator (a failing
  \<^verbatim>\<open>proc.kill()\<close>, \<^verbatim>\<open>strftime\<close>, a render step).
\<close>

datatype exn =
    DaemonPipeExit
  | AssertionError
  | AttributeError
  | TypeError
  | JSONDecodeError
  | UnicodeDecodeError
  | ValueError
  | NotImplementedError
  | PermissionError
  | Exception string

section \<open>CounterContext\<close>

text \<open>
  \<^verbatim>\<open>class CounterContext\<close>: one slot \<^verbatim>\<open>count\<close>, a Python int, starting at 0.
  \<^verbatim>\<open>__enter__\<close> adds one, \<^verbatim>\<open>__exit__\<close> subtracts one and returns \<^verbatim>\<open>None\<close>, so an
  exception of the body is not suppressed. The asynchronous pair delegates to the
  synchronous one.
\<close>

record CounterContext =
  count :: int

definition CounterContext_init :: CounterContext where
  "CounterContext_init = \<lparr>count = 0\<rparr>"

definition CounterContext_enter :: "CounterContext \<Rightarrow> CounterContext" where
  "CounterContext_enter c = c\<lparr>count := count c + 1\<rparr>"

definition CounterContext_exit :: "CounterContext \<Rightarrow> CounterContext" where
  "CounterContext_exit c = c\<lparr>count := count c - 1\<rparr>"

definition CounterContext_aenter :: "CounterContext \<Rightarrow> CounterContext" where
  "CounterContext_aenter c = CounterContext_enter c"

definition CounterContext_aexit :: "CounterContext \<Rightarrow> CounterContext" where
  "CounterContext_aexit c = CounterContext_exit c"

text \<open>
  The code that uses a counter through \<^verbatim>\<open>with\<close> and \<^verbatim>\<open>async with\<close> only: a body
  returns or raises, runs two bodies in sequence, opens a nested scope on the counter,
  or handles an exception of an inner body.
\<close>

datatype scoped =
    Return
  | Raise exn
  | Seq scoped scoped
  | With scoped
  | AsyncWith scoped
  | TryExcept scoped scoped

text \<open>
  \<open>run b c\<close> executes \<open>b\<close> from counter \<open>c\<close>: the exception it ends with, if any, the
  counter afterwards, and every value the count took on the way, in order.
\<close>

fun run :: "scoped \<Rightarrow> CounterContext \<Rightarrow> exn option \<times> CounterContext \<times> int list" where
  "run Return c = (None, c, [])"
| "run (Raise e) c = (Some e, c, [])"
| "run (Seq a b) c =
     (case run a c of
        (Some e, c', tr) \<Rightarrow> (Some e, c', tr)
      | (None, c', tr) \<Rightarrow>
          (case run b c' of (r, c'', tr') \<Rightarrow> (r, c'', tr @ tr')))"
| "run (With b) c =
     (let c1 = CounterContext_enter c in
      case run b c1 of
        (r, c2, tr) \<Rightarrow>
          (let c3 = CounterContext_exit c2 in (r, c3, count c1 # tr @ [count c3])))"
| "run (AsyncWith b) c =
     (let c1 = CounterContext_aenter c in
      case run b c1 of
        (r, c2, tr) \<Rightarrow>
          (let c3 = CounterContext_aexit c2 in (r, c3, count c1 # tr @ [count c3])))"
| "run (TryExcept b h) c =
     (case run b c of
        (Some e, c', tr) \<Rightarrow>
          (case run h c' of (r, c'', tr') \<Rightarrow> (r, c'', tr @ tr'))
      | (None, c', tr) \<Rightarrow> (None, c', tr))"

section \<open>Timestamp\<close>

text \<open>
  \<^verbatim>\<open>unix_time: int | float\<close>. A finite float is a rational number, and \<^verbatim>\<open>int(x)\<close>
  truncates it towards zero; NaN and the infinities are not values of this type.
\<close>

datatype number = PyInt int | PyFloat real

fun py_int :: "number \<Rightarrow> int" where
  "py_int (PyInt i) = i"
| "py_int (PyFloat r) = (if 0 \<le> r then \<lfloor>r\<rfloor> else \<lceil>r\<rceil>)"

text \<open>
  \<^verbatim>\<open>class Timestamp\<close>: the slots \<^verbatim>\<open>value\<close> and \<^verbatim>\<open>_display\<close> (\<^verbatim>\<open>None\<close> while nothing is
  cached).
\<close>

record Timestamp =
  ts_value :: int
  ts_display :: "string option"

definition Timestamp_update :: "number option \<Rightarrow> Timestamp \<Rightarrow> Timestamp" where
  "Timestamp_update unix_time ts =
     (let ts1 = (case unix_time of
                   Some t \<Rightarrow> ts\<lparr>ts_value := py_int t\<rparr>
                 | None \<Rightarrow> ts)
      in ts1\<lparr>ts_display := None\<rparr>)"

definition Timestamp_init :: "number \<Rightarrow> Timestamp" where
  "Timestamp_init unix_time = \<lparr>ts_value = py_int unix_time, ts_display = None\<rparr>"

text \<open>
  The body of the \<^verbatim>\<open>try\<close> in \<^verbatim>\<open>display\<close>:
  \<^verbatim>\<open>dt.datetime.fromtimestamp(self.value).strftime(self.format)\<close>. Both library calls and
  the settings lookup are the parameter \<open>strftime\<close>, which returns the text or raises;
  \<open>fmt\<close> is the format the settings hold at the time of the read.
\<close>

definition Timestamp_render ::
  "(int \<Rightarrow> 'f \<Rightarrow> exn + string) \<Rightarrow> 'f \<Rightarrow> int \<Rightarrow> string" where
  "Timestamp_render strftime fmt v =
     (if v = 0 then ''''
      else (case strftime v fmt of
              Inr s \<Rightarrow> s
            | Inl e \<Rightarrow> ''Bad format!''))"

definition Timestamp_display ::
  "(int \<Rightarrow> 'f \<Rightarrow> exn + string) \<Rightarrow> 'f \<Rightarrow> Timestamp \<Rightarrow> string \<times> Timestamp" where
  "Timestamp_display strftime fmt ts =
     (case ts_display ts of
        None \<Rightarrow>
          (let d = Timestamp_render strftime fmt (ts_value ts)
           in (d, ts\<lparr>ts_display := Some d\<rparr>))
      | Some d \<Rightarrow> (d, ts))"

text \<open>
  What a program does with a timestamp after creating it: \<^verbatim>\<open>update\<close> with or without a
  value, and reads of \<^verbatim>\<open>display\<close> under the format current at that moment.
\<close>

datatype 'f ts_op = Update "number option" | Display 'f

fun ts_step :: "(int \<Rightarrow> 'f \<Rightarrow> exn + string) \<Rightarrow> Timestamp \<Rightarrow> 'f ts_op \<Rightarrow> Timestamp" where
  "ts_step strftime ts (Update t) = Timestamp_update t ts"
| "ts_step strftime ts (Display fmt) = snd (Timestamp_display strftime fmt ts)"

definition ts_run ::
  "(int \<Rightarrow> 'f \<Rightarrow> exn + string) \<Rightarrow> number \<Rightarrow> 'f ts_op list \<Rightarrow> Timestamp" where
  "ts_run strftime t0 ops = foldl (ts_step strftime) (Timestamp_init t0) ops"

section \<open>Popup\<close>

text \<open>
  \<^verbatim>\<open>class Popup(functools.partial)\<close>. A positional or keyword argument is a string
  (the correlation id is passed as one) or any other value.
\<close>

datatype 'a pyval = Str string | Val 'a

text \<open>
  The wrapped callable takes the positional arguments, the keyword arguments and the
  state of the interface it draws on, and returns \<^verbatim>\<open>(opened, closed)\<close> or raises.
  \<^verbatim>\<open>opened\<close> is an int (a bool is one), since the closed popup answers \<^verbatim>\<open>0\<close>.
\<close>

type_synonym ('a, 'w) render =
  "'a pyval list \<Rightarrow> (string \<rightharpoonup> 'a pyval) \<Rightarrow> 'w \<Rightarrow> (exn + int \<times> bool) \<times> 'w"

record ('a, 'w) Popup =
  func :: "('a, 'w) render"
  args :: "'a pyval list"
  kwds :: "string \<rightharpoonup> 'a pyval"
  is_open :: bool
  uuid :: string

text \<open>\<^verbatim>\<open>str(n)\<close> of a natural number: its decimal digits.\<close>

definition digit :: "nat \<Rightarrow> char" where
  "digit d = char_of (48 + d)"

function str_nat :: "nat \<Rightarrow> string" where
  "str_nat n = (if n < 10 then [digit n] else str_nat (n div 10) @ [digit (n mod 10)])"
  by pat_completeness auto
termination
  by (relation "measure id") auto

declare str_nat.simps [simp del]

text \<open>\<^verbatim>\<open>s.split('.')[-1]\<close>: what follows the last dot, all of \<open>s\<close> when it has none.\<close>

definition split_last :: "string \<Rightarrow> string" where
  "split_last s = rev (takeWhile (\<lambda>c. c \<noteq> CHR ''.'') (rev s))"

text \<open>
  \<^verbatim>\<open>Popup.__init__\<close>. The class attribute \<^verbatim>\<open>next_uuid\<close> (0 when the class is created) is
  passed in and returned incremented. \<open>now\<close> is \<^verbatim>\<open>str(time.time())\<close> and \<open>rnd\<close> is
  the result of \<^verbatim>\<open>utils.rand_num_str()\<close>, defined outside these sources.
\<close>

definition Popup_init ::
  "nat \<Rightarrow> ('a, 'w) render \<Rightarrow> 'a pyval list \<Rightarrow> (string \<rightharpoonup> 'a pyval) \<Rightarrow> string \<Rightarrow> string
     \<Rightarrow> ('a, 'w) Popup \<times> nat" where
  "Popup_init next_uuid f a k now rnd =
     (\<lparr>func = f, args = a, kwds = k, is_open = True,
       uuid = str_nat next_uuid @ ''_'' @ split_last now @ ''_'' @ rnd\<rparr>,
      next_uuid + 1)"

text \<open>
  \<^verbatim>\<open>Popup.__call__\<close>. The state is the interface state paired with the number of times
  a wrapped callable has been invoked. Passing \<^verbatim>\<open>popup_uuid\<close> twice is Python's
  TypeError, raised before the callable runs.
\<close>

definition Popup_call ::
  "('a, 'w) Popup \<Rightarrow> 'a pyval list \<Rightarrow> (string \<rightharpoonup> 'a pyval) \<Rightarrow> 'w \<times> nat
     \<Rightarrow> (exn + int \<times> bool) \<times> ('a, 'w) Popup \<times> ('w \<times> nat)" where
  "Popup_call p a k st =
     (if \<not> is_open p then (Inr (0, True), p, st)
      else if k ''popup_uuid'' \<noteq> None then (Inl TypeError, p, st)
      else
        (case func p (args p @ a) (kwds p ++ [''popup_uuid'' \<mapsto> Str (uuid p)] ++ k) (fst st) of
           (Inl e, w') \<Rightarrow> (Inl e, p, (w', Suc (snd st)))
         | (Inr (op, cl), w') \<Rightarrow>
             (Inr (op, cl),
              (if cl then p\<lparr>is_open := False\<rparr> else p),
              (w', Suc (snd st)))))"

text \<open>A sequence of calls on one popup, each with its own arguments.\<close>

fun Popup_calls ::
  "('a, 'w) Popup \<Rightarrow> ('a pyval list \<times> (string \<rightharpoonup> 'a pyval)) list \<Rightarrow> 'w \<times> nat
     \<Rightarrow> (exn + int \<times> bool) list \<times> ('a, 'w) Popup \<times> ('w \<times> nat)" where
  "Popup_calls p [] st = ([], p, st)"
| "Popup_calls p ((a, k) # cs) st =
     (case Popup_call p a k st of
        (r, p', st') \<Rightarrow>
          (case Popup_calls p' cs st' of (rs, p'', st'') \<Rightarrow> (r # rs, p'', st'')))"

text \<open>Popups constructed one after the other; each request carries the arguments of one
  construction.\<close>

fun Popup_create_all ::
  "nat \<Rightarrow> (('a, 'w) render \<times> 'a pyval list \<times> (string \<rightharpoonup> 'a pyval) \<times> string \<times> string) list
     \<Rightarrow> ('a, 'w) Popup list \<times> nat" where
  "Popup_create_all n [] = ([], n)"
| "Popup_create_all n ((f, a, k, now, rnd) # rs) =
     (case Popup_init n f a k now rnd of
        (p, n1) \<Rightarrow> (case Popup_create_all n1 rs of (ps, n2) \<Rightarrow> (p # ps, n2)))"

section \<open>DaemonProcess\<close>

text \<open>
  \<^verbatim>\<open>getattr(proc, name, default)\<close>: the attribute is missing or has a value.
\<close>

datatype 'a attr = Missing | Has 'a

text \<open>
  The process handle \<^verbatim>\<open>DaemonProcess.kill\<close> is given: a multiprocessing process has
  \<^verbatim>\<open>exitcode\<close>, an asyncio subprocess \<^verbatim>\<open>returncode\<close>, a standard subprocess \<^verbatim>\<open>poll()\<close>,
  whose call returns or raises. \<open>kill_error\<close> is the exception \<^verbatim>\<open>proc.kill()\<close> raises when
  it fails, \<open>kills\<close> counts the kill signals sent.
\<close>

record proc_handle =
  exitcode :: "int option attr"
  returncode :: "int option attr"
  poll :: "(exn + int option) attr"
  kill_error :: "exn option"
  kills :: nat

definition proc_kill :: "proc_handle \<Rightarrow> exn + proc_handle" where
  "proc_kill h =
     (case kill_error h of
        Some e \<Rightarrow> Inl e
      | None \<Rightarrow> Inr (h\<lparr>kills := Suc (kills h)\<rparr>))"

text \<open>The body of the \<^verbatim>\<open>try\<close> in \<^verbatim>\<open>kill\<close>; the default of each \<^verbatim>\<open>getattr\<close> is not
  \<^verbatim>\<open>None\<close>, so a missing attribute takes the next branch.\<close>

definition kill_body :: "proc_handle \<Rightarrow> exn + proc_handle" where
  "kill_body h =
     (if exitcode h = Has None then proc_kill h
      else if returncode h = Has None then proc_kill h
      else
        (case poll h of
           Missing \<Rightarrow> Inr h
         | Has (Inl e) \<Rightarrow> Inl e
         | Has (Inr res) \<Rightarrow> (if res = None then proc_kill h else Inr h)))"

text \<open>\<^verbatim>\<open>DaemonProcess.kill\<close>: the exception that leaves the method, if any, and the
  handle afterwards. \<^verbatim>\<open>except Exception: pass\<close> ends every failure of the body.\<close>

definition DaemonProcess_kill :: "proc_handle \<Rightarrow> exn option \<times> proc_handle" where
  "DaemonProcess_kill h =
     (case kill_body h of
        Inl e \<Rightarrow> (None, h)
      | Inr h' \<Rightarrow> (None, h'))"

text \<open>
  \<^verbatim>\<open>weakref.finalize(proc, self.kill, proc)\<close>: a finalizer is alive until its first
  call; calling it alive marks it dead and calls \<^verbatim>\<open>kill(proc)\<close>, calling it dead does
  nothing. \<^verbatim>\<open>__exit__\<close> calls it, and so does the interpreter when the finalizer fires
  by itself.
\<close>

record DaemonProcess =
  finalize_alive :: bool

definition DaemonProcess_init :: DaemonProcess where
  "DaemonProcess_init = \<lparr>finalize_alive = True\<rparr>"

definition finalize ::
  "DaemonProcess \<times> proc_handle \<Rightarrow> exn option \<times> DaemonProcess \<times> proc_handle" where
  "finalize s =
     (case s of
        (g, h) \<Rightarrow>
          (if finalize_alive g then
             (case DaemonProcess_kill h of (e, h') \<Rightarrow> (e, g\<lparr>finalize_alive := False\<rparr>, h'))
           else (None, g, h)))"

definition DaemonProcess_exit ::
  "DaemonProcess \<times> proc_handle \<Rightarrow> exn option \<times> DaemonProcess \<times> proc_handle" where
  "DaemonProcess_exit s = finalize s"

definition finalize_backstop ::
  "DaemonProcess \<times> proc_handle \<Rightarrow> exn option \<times> DaemonProcess \<times> proc_handle" where
  "finalize_backstop s = finalize s"

text \<open>The liveness check in the specification's words: an unset exit code, an unset
  return code, or a poll that returns \<^verbatim>\<open>None\<close>.\<close>

definition still_running :: "proc_handle \<Rightarrow> bool" where
  "still_running h =
     (exitcode h = Has None \<or> returncode h = Has None \<or> poll h = Has (Inr None))"

section \<open>Messages on the wire\<close>

text \<open>
  \<^verbatim>\<open>json.loads\<close> and \<^verbatim>\<open>json.dumps\<close> are parameters. \<open>loads line\<close> is the decoded
  message or the exception the call raises: \<^verbatim>\<open>json.JSONDecodeError\<close> when the text is
  not a JSON document, \<^verbatim>\<open>UnicodeDecodeError\<close> when the bytes it is given are not text in
  the encoding it detects, or another one. The readers handle \<^verbatim>\<open>json.JSONDecodeError\<close>
  only.
\<close>

text \<open>How a call of a reader ends: with a message, with an exception, or suspended for
  ever in a wait that nothing ends.\<close>

datatype 'm outcome = Returned 'm | Raised exn | Suspended

section \<open>DaemonPipe\<close>

text \<open>
  The \<^verbatim>\<open>asyncio.StreamReader\<close> behind \<^verbatim>\<open>proc.stdout\<close>: the lines fed to it and not yet
  read, whether \<^verbatim>\<open>feed_eof()\<close> has been called, and its limit (65536 unless the process
  was started with another). \<^verbatim>\<open>at_eof()\<close> is true when the end was fed and the buffer
  is empty. \<^verbatim>\<open>readline()\<close> takes the first buffered line; when the line feed of that
  line lies beyond the limit it drops the line and raises \<^verbatim>\<open>ValueError\<close>. At the end of
  the stream it returns the empty bytes, and otherwise it waits (\<open>None\<close>).
\<close>

record StreamReader =
  buffer :: "string list"
  eof :: bool
  limit :: nat

definition at_eof :: "StreamReader \<Rightarrow> bool" where
  "at_eof r = (eof r \<and> buffer r = [])"

text \<open>The number of bytes of a line before its line feed.\<close>

definition line_length :: "string \<Rightarrow> nat" where
  "line_length line = length (takeWhile (\<lambda>c. c \<noteq> CHR 0x0A) line)"

definition readline :: "StreamReader \<Rightarrow> ((exn + string) \<times> StreamReader) option" where
  "readline r =
     (case buffer r of
        line # rest \<Rightarrow>
          (if limit r < line_length line then Some (Inl ValueError, r\<lparr>buffer := rest\<rparr>)
           else Some (Inr line, r\<lparr>buffer := rest\<rparr>))
      | [] \<Rightarrow> (if eof r then Some (Inr [], r) else None))"

text \<open>
  The \<^verbatim>\<open>asyncio.subprocess.Process\<close> of a \<^verbatim>\<open>DaemonPipe\<close>: \<^verbatim>\<open>returncode\<close> is \<^verbatim>\<open>None\<close>
  while it runs; \<^verbatim>\<open>stdout\<close> and \<^verbatim>\<open>stdin\<close> are \<^verbatim>\<open>None\<close> unless the process was started
  with pipes; \<open>proc_stdin\<close> holds the bytes written so far.
\<close>

record Process =
  proc_returncode :: "int option"
  proc_stdout :: "StreamReader option"
  proc_stdin :: "string option"

record DaemonPipe =
  proc :: Process
  daemon :: DaemonProcess

definition DaemonPipe_init :: "Process \<Rightarrow> DaemonPipe" where
  "DaemonPipe_init p = \<lparr>proc = p, daemon = DaemonProcess_init\<rparr>"

definition is_alive :: "Process \<Rightarrow> bool" where
  "is_alive p = (proc_returncode p = None)"

text \<open>The \<^verbatim>\<open>while\<close> loop of \<^verbatim>\<open>DaemonPipe.get_async\<close> and the \<^verbatim>\<open>raise\<close> after it. The
  \<^verbatim>\<open>readline\<close> stands outside the \<^verbatim>\<open>try\<close>, so its exception leaves the call, and so
  does an exception of \<^verbatim>\<open>json.loads\<close> that is not a \<^verbatim>\<open>JSONDecodeError\<close>.\<close>

function DaemonPipe_get_loop ::
  "(string \<Rightarrow> exn + 'm) \<Rightarrow> Process \<Rightarrow> StreamReader \<Rightarrow> 'm outcome \<times> StreamReader" where
  "DaemonPipe_get_loop loads p r =
     (if is_alive p \<and> \<not> at_eof r then
        (case readline r of
           None \<Rightarrow> (Suspended, r)
         | Some (res, r') \<Rightarrow>
             (case res of
                Inl e \<Rightarrow> (Raised e, r')
              | Inr line \<Rightarrow>
                  (case loads line of
                     Inr v \<Rightarrow> (Returned v, r')
                   | Inl e \<Rightarrow>
                       (if e = JSONDecodeError then DaemonPipe_get_loop loads p r'
                        else (Raised e, r')))))
      else (Raised DaemonPipeExit, r))"
  by pat_completeness auto
termination
  by (relation "measure (\<lambda>(loads, p, r). length (buffer r))")
    (auto simp: readline_def at_eof_def split: list.splits if_splits)

declare DaemonPipe_get_loop.simps [simp del]

definition DaemonPipe_get_async ::
  "(string \<Rightarrow> exn + 'm) \<Rightarrow> DaemonPipe \<Rightarrow> 'm outcome \<times> DaemonPipe" where
  "DaemonPipe_get_async loads d =
     (case proc_stdout (proc d) of
        None \<Rightarrow> (Raised AssertionError, d)
      | Some r \<Rightarrow>
          (case DaemonPipe_get_loop loads (proc d) r of
             (out, r') \<Rightarrow> (out, d\<lparr>proc := (proc d)\<lparr>proc_stdout := Some r'\<rparr>\<rparr>)))"

text \<open>\<^verbatim>\<open>DaemonPipe.put\<close>: the exception raised, if any, and the pipe afterwards. The
  line feed is the byte 10.\<close>

definition DaemonPipe_put ::
  "('m \<Rightarrow> string) \<Rightarrow> DaemonPipe \<Rightarrow> 'm \<Rightarrow> exn option \<times> DaemonPipe" where
  "DaemonPipe_put dumps d data =
     (case proc_stdin (proc d) of
        None \<Rightarrow> (Some AssertionError, d)
      | Some written \<Rightarrow>
          (if proc_returncode (proc d) = None then
             (None, d\<lparr>proc := (proc d)\<lparr>proc_stdin := Some (written @ dumps data @ [CHR 0x0A])\<rparr>\<rparr>)
           else (Some DaemonPipeExit, d)))"




section \<open>ChildPipe\<close>

text \<open>
  What \<^verbatim>\<open>ChildPipe.__init__\<close> finds: whether an event loop is running, whether
  \<^verbatim>\<open>sys.stdin\<close> exists, and what the loop's \<^verbatim>\<open>add_reader\<close> does with standard input:
  it registers the callback (\<open>None\<close>) or raises. The constructor handles
  \<^verbatim>\<open>NotImplementedError\<close> only; any other exception leaves it.
\<close>

record child_env =
  running_loop :: bool
  sys_stdin :: bool
  add_reader :: "exn option"

text \<open>The slot \<^verbatim>\<open>stdin_event\<close>: never assigned, \<^verbatim>\<open>None\<close>, or an \<^verbatim>\<open>asyncio.Event\<close> that
  the loop's reader callback sets.\<close>

datatype stdin_event_slot = Unset | IsNone | Event

record ChildPipe =
  loop :: bool
  stdin_event :: stdin_event_slot

definition ChildPipe_init :: "child_env \<Rightarrow> exn + ChildPipe" where
  "ChildPipe_init env =
     (if running_loop env \<and> sys_stdin env then
        (case add_reader env of
           None \<Rightarrow> Inr \<lparr>loop = running_loop env, stdin_event = Event\<rparr>
         | Some e \<Rightarrow>
             (if e = NotImplementedError
              then Inr \<lparr>loop = running_loop env, stdin_event = IsNone\<rparr>
              else Inl e))
      else Inr \<lparr>loop = running_loop env, stdin_event = Unset\<rparr>)"



text \<open>What \<^verbatim>\<open>get_async\<close> asks of the event loop, in order.\<close>

datatype effect =
    Event_wait
  | Event_clear
  | Run_in_executor_readline
  | Sleep

text \<open>
  The \<^verbatim>\<open>while True\<close> of \<^verbatim>\<open>ChildPipe.get_async\<close>. \<open>ev\<close> says that \<^verbatim>\<open>stdin_event\<close> is an
  event and \<open>tr\<close> collects the effects. \<open>signalled i\<close> says whether the event is set, or
  gets set by the loop's reader callback, while the call waits before its \<open>i\<close>-th
  read: the callback runs when the descriptor of standard input is readable, which
  lines already held in the buffer of \<^verbatim>\<open>sys.stdin\<close> do not make it; a wait that is
  not signalled never ends. The first argument of type \<open>nat\<close> bounds the number of
  turns of the loop, so that the effects of a call that never returns can be read
  off: \<open>None\<close> is a call still in the loop after that many turns.
\<close>

fun ChildPipe_get_async_loop ::
  "(string \<Rightarrow> exn + 'm) \<Rightarrow> bool \<Rightarrow> (nat \<Rightarrow> bool) \<Rightarrow> (nat \<Rightarrow> string) \<Rightarrow> nat \<Rightarrow> nat
     \<Rightarrow> effect list \<Rightarrow> 'm outcome option \<times> nat \<times> effect list" where
  "ChildPipe_get_async_loop loads ev signalled rl 0 i tr = (None, i, tr)"
| "ChildPipe_get_async_loop loads ev signalled rl (Suc n) i tr =
     (if ev \<and> \<not> signalled i then (Some Suspended, i, tr @ [Event_wait])
      else
        (let tr1 = (if ev then tr @ [Event_wait, Event_clear] else tr);
             line = rl i;
             tr2 = tr1 @ [Run_in_executor_readline]
         in case loads line of
              Inr v \<Rightarrow> (Some (Returned v), Suc i, tr2)
            | Inl e \<Rightarrow>
                (if e = JSONDecodeError
                 then ChildPipe_get_async_loop loads ev signalled rl n (Suc i) (tr2 @ [Sleep])
                 else (Some (Raised e), Suc i, tr2))))"

definition ChildPipe_get_async ::
  "(string \<Rightarrow> exn + 'm) \<Rightarrow> ChildPipe \<Rightarrow> (nat \<Rightarrow> bool) \<Rightarrow> (nat \<Rightarrow> string) option \<Rightarrow> nat \<Rightarrow> nat
     \<Rightarrow> 'm outcome option \<times> nat \<times> effect list" where
  "ChildPipe_get_async loads c signalled stdin n i =
     (case stdin of
        None \<Rightarrow> (Some (Raised AssertionError), i, [])
      | Some rl \<Rightarrow>
          (if \<not> loop c then (Some (Raised AssertionError), i, [])
           else
             (case stdin_event c of
                Unset \<Rightarrow> (Some (Raised AttributeError), i, [])
              | IsNone \<Rightarrow> ChildPipe_get_async_loop loads False signalled rl n i []
              | Event \<Rightarrow> ChildPipe_get_async_loop loads True signalled rl n i [])))"

text \<open>The effects of \<^verbatim>\<open>if self.stdin_event: await self.stdin_event.wait();
  self.stdin_event.clear()\<close>, by whether the slot holds an event.\<close>

definition wait_until_readable :: "bool \<Rightarrow> effect list" where
  "wait_until_readable ev = (if ev then [Event_wait, Event_clear] else [])"

text \<open>The effects of \<open>m\<close> turns of the loop that each read a line, found it rejected
  and yielded; the effects of the last, unfinished turn by the way the call stands;
  and the number of lines that turn has read.\<close>

definition turns :: "bool \<Rightarrow> nat \<Rightarrow> effect list" where
  "turns ev m = concat (replicate m (wait_until_readable ev @ [Run_in_executor_readline, Sleep]))"

definition last_turn :: "bool \<Rightarrow> 'm outcome option \<Rightarrow> effect list" where
  "last_turn ev res =
     (case res of
        None \<Rightarrow> []
      | Some out \<Rightarrow>
          (case out of
             Suspended \<Rightarrow> [Event_wait]
           | Returned v \<Rightarrow> wait_until_readable ev @ [Run_in_executor_readline]
           | Raised e \<Rightarrow> wait_until_readable ev @ [Run_in_executor_readline]))"

definition last_read :: "'m outcome option \<Rightarrow> nat" where
  "last_read res =
     (case res of
        None \<Rightarrow> 0
      | Some out \<Rightarrow> (case out of Suspended \<Rightarrow> 0 | Returned v \<Rightarrow> 1 | Raised e \<Rightarrow> 1))"

text \<open>The read strategy in the specification's words: with a readiness callback the
  read is made without the executor thread, and only without one is it deferred to
  that thread.\<close>

definition spec_read_strategy :: "ChildPipe \<Rightarrow> effect list \<Rightarrow> bool" where
  "spec_read_strategy c tr =
     (if stdin_event c = Event then Run_in_executor_readline \<notin> set tr
      else Run_in_executor_readline \<in> set tr)"

section \<open>Example inputs\<close>

text \<open>A decoder that knows two messages and is given, besides text that is not JSON,
  a byte that is not UTF-8.\<close>

definition ex_loads :: "string \<Rightarrow> exn + nat" where
  "ex_loads l =
     (if l = ''1'' then Inr 1 else if l = ''2'' then Inr 2
      else if l = [CHR 0xFF] then Inl UnicodeDecodeError
      else Inl JSONDecodeError)"

text \<open>A process that has exited with a line still buffered; a running one whose
  output carries a line of noise; one whose noise is not UTF-8; one whose noise is
  longer than the limit it was started with.\<close>

definition exited_pipe :: DaemonPipe where
  "exited_pipe = DaemonPipe_init
     \<lparr>proc_returncode = Some 0,
      proc_stdout = Some \<lparr>buffer = [''1''], eof = False, limit = 65536\<rparr>,
      proc_stdin = Some []\<rparr>"




text \<open>A standard input that ends after a line of noise and a message; a worker whose
  loop registered the readiness event.\<close>

definition ex_stdin :: "nat \<Rightarrow> string" where
  "ex_stdin i = (if i = 0 then ''noise'' else if i = 1 then ''2'' else [])"

definition ready_env :: child_env where
  "ready_env = \<lparr>running_loop = True, sys_stdin = True, add_reader = None\<rparr>"

definition ready_pipe :: ChildPipe where
  "ready_pipe = \<lparr>loop = True, stdin_event = Event\<rparr>"

text \<open>An asyncio subprocess that is still running.\<close>

definition running_handle :: proc_handle where
  "running_handle =
     \<lparr>exitcode = Missing, returncode = Has None, poll = Missing,
      kill_error = None, kills = 0\<rparr>"

text \<open>A render step that reports the popup closed from its second frame on.\<close>

definition ex_render :: "(unit, nat) render" where
  "ex_render a k w = (Inr (1, 0 < w), Suc w)"

definition ex_popup :: "(unit, nat) Popup" where
  "ex_popup = \<lparr>func = ex_render, args = [], kwds = Map.empty, is_open = True, uuid = ''0_5_7''\<rparr>"

text \<open>A formatter that knows one format.\<close>

definition ex_strftime :: "int \<Rightarrow> string \<Rightarrow> exn + string" where
  "ex_strftime v fmt =
     (if fmt = ''%Y'' then Inr ''2023'' else Inl (Exception ''Invalid format string''))"

text \<open>A readiness event that is signalled before every read, and one that is signalled
  once, for input that arrived in one piece.\<close>

definition always_signalled :: "nat \<Rightarrow> bool" where
  "always_signalled j = True"

definition signalled_once :: "nat \<Rightarrow> bool" where
  "signalled_once j = (j = 0)"

section \<open>Theorems\<close>

subsection \<open>CounterContext\<close>

lemma run_count:
  "run b c = (r, c', tr) \<Longrightarrow> count c' = count c \<and> (\<forall>n \<in> set tr. count c \<le> n)"
proof (induction b arbitrary: c r c' tr)
  case Return
  then show ?case by simp
next
  case (Raise e)
  then show ?case by simp
next
  case (Seq a b)
  obtain ra ca tra where a: "run a c = (ra, ca, tra)" by (cases "run a c") auto
  obtain rb cb trb where b: "run b ca = (rb, cb, trb)" by (cases "run b ca") auto
  from Seq.IH(1)[OF a] have ia: "count ca = count c" "\<forall>n \<in> set tra. count c \<le> n" by auto
  from Seq.IH(2)[OF b] have ib: "count cb = count ca" "\<forall>n \<in> set trb. count ca \<le> n" by auto
  show ?case
  proof (cases ra)
    case None
    with Seq.prems a b have "c' = cb" "tr = tra @ trb" by auto
    with ia ib show ?thesis by auto
  next
    case (Some e)
    with Seq.prems a have "c' = ca" "tr = tra" by auto
    with ia show ?thesis by auto
  qed
next
  case (With b)
  obtain rb cb trb where b: "run b (CounterContext_enter c) = (rb, cb, trb)"
    by (cases "run b (CounterContext_enter c)") auto
  from With.IH[OF b] have ib: "count cb = count c + 1" "\<forall>n \<in> set trb. count c + 1 \<le> n"
    by (auto simp: CounterContext_enter_def)
  from With.prems b have "c' = CounterContext_exit cb"
    and "tr = count (CounterContext_enter c) # trb @ [count (CounterContext_exit cb)]"
    by (auto simp: Let_def)
  with ib show ?case
    by (auto simp: CounterContext_enter_def CounterContext_exit_def)
next
  case (AsyncWith b)
  obtain rb cb trb where b: "run b (CounterContext_aenter c) = (rb, cb, trb)"
    by (cases "run b (CounterContext_aenter c)") auto
  from AsyncWith.IH[OF b] have ib: "count cb = count c + 1" "\<forall>n \<in> set trb. count c + 1 \<le> n"
    by (auto simp: CounterContext_aenter_def CounterContext_enter_def)
  from AsyncWith.prems b have "c' = CounterContext_aexit cb"
    and "tr = count (CounterContext_aenter c) # trb @ [count (CounterContext_aexit cb)]"
    by (auto simp: Let_def)
  with ib show ?case
    by (auto simp: CounterContext_aenter_def CounterContext_enter_def
        CounterContext_aexit_def CounterContext_exit_def)
next
  case (TryExcept b h)
  obtain rb cb trb where b: "run b c = (rb, cb, trb)" by (cases "run b c") auto
  obtain rh ch trh where h: "run h cb = (rh, ch, trh)" by (cases "run h cb") auto
  from TryExcept.IH(1)[OF b] have ib: "count cb = count c" "\<forall>n \<in> set trb. count c \<le> n" by auto
  from TryExcept.IH(2)[OF h] have ih: "count ch = count cb" "\<forall>n \<in> set trh. count cb \<le> n" by auto
  show ?case
  proof (cases rb)
    case None
    with TryExcept.prems b have "c' = cb" "tr = trb" by auto
    with ib show ?thesis by auto
  next
    case (Some e)
    with TryExcept.prems b h have "c' = ch" "tr = trb @ trh" by auto
    with ib ih show ?thesis by auto
  qed
qed

text \<open>
  C9. For every nesting of \<^verbatim>\<open>with\<close> and \<^verbatim>\<open>async with\<close> scopes on a counter whose count is
  not negative (a new counter holds 0), the count after a scope equals the count before
  it was entered, whether the body returned (\<open>r = None\<close>) or raised (\<open>r = Some e\<close>), and
  no value the count takes while the scope runs is negative.
\<close>

theorem CounterContext_scoped_balance:
  assumes "0 \<le> count c"
    and "s = With b \<or> s = AsyncWith b"
    and "run s c = (r, c', tr)"
  shows "count c' = count c \<and> (\<forall>n \<in> set tr. 0 \<le> n)"
  using run_count[OF assms(3)] assms(1) by fastforce

theorem CounterContext_scoped_balance_witness:
  "run (With (Seq (AsyncWith Return) (Raise TypeError))) CounterContext_init
     = (Some TypeError, CounterContext_init, [1, 2, 1, 0])
   \<and> count CounterContext_init = 0"
  using CounterContext_scoped_balance
    [of CounterContext_init "With (Seq (AsyncWith Return) (Raise TypeError))"
        "Seq (AsyncWith Return) (Raise TypeError)" "Some TypeError" CounterContext_init
        "[1, 2, 1, 0]"]
  by (simp add: CounterContext_init_def CounterContext_enter_def CounterContext_exit_def
      CounterContext_aenter_def CounterContext_aexit_def)


subsection \<open>DaemonPipe: the terminal condition\<close>

lemma set_stdout_same:
  "proc_stdout (proc d) = Some r \<Longrightarrow> d\<lparr>proc := (proc d)\<lparr>proc_stdout := Some r\<rparr>\<rparr> = d"
  by (cases d, cases "proc d") auto

lemma get_loop_exit:
  "\<not> is_alive p \<or> at_eof r \<Longrightarrow> DaemonPipe_get_loop loads p r = (Raised DaemonPipeExit, r)"
  by (subst DaemonPipe_get_loop.simps) auto

lemma get_async_exit:
  assumes "proc_stdout (proc d) = Some r" and "proc_returncode (proc d) \<noteq> None \<or> at_eof r"
  shows "DaemonPipe_get_async loads d = (Raised DaemonPipeExit, d)"
proof -
  from assms(2) have "\<not> is_alive (proc d) \<or> at_eof r" by (auto simp: is_alive_def)
  then have "DaemonPipe_get_loop loads (proc d) r = (Raised DaemonPipeExit, r)"
    by (rule get_loop_exit)
  with assms(1) show ?thesis
    by (simp add: DaemonPipe_get_async_def set_stdout_same)
qed

text \<open>
  C1. On a controller-side pipe whose process has exited (\<^verbatim>\<open>returncode\<close> is set) or
  whose output stream is at its end, the next \<^verbatim>\<open>get_async\<close> raises \<^verbatim>\<open>DaemonPipeExit\<close>: it
  neither returns a message nor stays suspended, and the pipe is as before. With
  \<^verbatim>\<open>returncode\<close> set, the next \<^verbatim>\<open>put\<close> raises \<^verbatim>\<open>DaemonPipeExit\<close> and writes nothing. The
  two streams are those of a process started with pipes, as the assertions of both
  methods require.
\<close>

theorem DaemonPipe_terminal_condition:
  "(proc_stdout (proc d) = Some r \<and> (proc_returncode (proc d) \<noteq> None \<or> at_eof r)
      \<longrightarrow> DaemonPipe_get_async loads d = (Raised DaemonPipeExit, d))
   \<and> (proc_stdin (proc d) = Some w \<and> proc_returncode (proc d) \<noteq> None
      \<longrightarrow> DaemonPipe_put dumps d data = (Some DaemonPipeExit, d))"
proof (intro conjI impI)
  assume "proc_stdout (proc d) = Some r \<and> (proc_returncode (proc d) \<noteq> None \<or> at_eof r)"
  then show "DaemonPipe_get_async loads d = (Raised DaemonPipeExit, d)"
    by (intro get_async_exit[of d r]) auto
next
  assume "proc_stdin (proc d) = Some w \<and> proc_returncode (proc d) \<noteq> None"
  then show "DaemonPipe_put dumps d data = (Some DaemonPipeExit, d)"
    by (auto simp: DaemonPipe_put_def)
qed

theorem DaemonPipe_terminal_condition_witness:
  "DaemonPipe_get_async (\<lambda>l. Inr l) exited_pipe = (Raised DaemonPipeExit, exited_pipe)
   \<and> DaemonPipe_put id exited_pipe ''ping'' = (Some DaemonPipeExit, exited_pipe)"
  using DaemonPipe_terminal_condition
    [where d = exited_pipe and r = "\<lparr>buffer = [''1''], eof = False, limit = 65536\<rparr>" and loads = "\<lambda>l. Inr l"
       and w = "[]" and dumps = id and data = "''ping''"]
  by (simp add: exited_pipe_def DaemonPipe_init_def)

subsection \<open>The readers: order and skipped lines\<close>









subsection \<open>DaemonProcess\<close>

lemma kill_never_raises: "fst (DaemonProcess_kill h) = None"
  by (simp add: DaemonProcess_kill_def split: sum.splits)

lemma kill_body_kills:
  "kill_body h = Inr h' \<Longrightarrow>
     h' = (if still_running h then h\<lparr>kills := Suc (kills h)\<rparr> else h)
     \<and> (still_running h \<longrightarrow> kill_error h = None)"
  by (auto simp: kill_body_def proc_kill_def still_running_def
      split: if_splits option.splits attr.splits sum.splits)

lemma kill_body_fails:
  "kill_body h = Inl e \<Longrightarrow>
     (still_running h \<and> kill_error h = Some e) \<or> (\<not> still_running h \<and> poll h = Has (Inl e))"
  by (auto simp: kill_body_def proc_kill_def still_running_def
      split: if_splits option.splits attr.splits sum.splits)

lemma kill_effect:
  "snd (DaemonProcess_kill h) =
     (if still_running h \<and> kill_error h = None then h\<lparr>kills := Suc (kills h)\<rparr> else h)"
proof (cases "kill_body h")
  case (Inl e)
  with kill_body_fails[OF Inl] show ?thesis
    by (auto simp: DaemonProcess_kill_def)
next
  case (Inr h')
  with kill_body_kills[OF Inr] show ?thesis
    by (auto simp: DaemonProcess_kill_def)
qed

text \<open>
  C3. \<^verbatim>\<open>DaemonProcess.kill\<close> never raises, whatever \<^verbatim>\<open>proc.kill()\<close> or \<^verbatim>\<open>poll()\<close> raise. A
  kill signal is sent only when the liveness check says the process is running, and is
  sent then unless \<^verbatim>\<open>proc.kill()\<close> fails. Releasing the guard through \<^verbatim>\<open>__exit__\<close> and
  then through the finalizer's own firing, or in the other order, raises nothing and
  leaves the guard and the process as the first release left them.
\<close>

theorem DaemonProcess_kill_idempotent:
  "fst (DaemonProcess_kill h) = None
   \<and> (kills (snd (DaemonProcess_kill h)) \<noteq> kills h \<longrightarrow> still_running h)
   \<and> (still_running h \<and> kill_error h = None
        \<longrightarrow> kills (snd (DaemonProcess_kill h)) = Suc (kills h))
   \<and> fst (DaemonProcess_exit (g, h)) = None
   \<and> finalize_backstop (snd (DaemonProcess_exit (g, h))) = (None, snd (DaemonProcess_exit (g, h)))
   \<and> DaemonProcess_exit (snd (finalize_backstop (g, h))) = (None, snd (finalize_backstop (g, h)))"
proof -
  obtain h' where k: "DaemonProcess_kill h = (None, h')"
    using kill_never_raises[of h] by (cases "DaemonProcess_kill h") simp
  have f1: "fst (finalize (g, h)) = None"
    by (simp add: finalize_def k)
  have f2: "finalize (snd (finalize (g, h))) = (None, snd (finalize (g, h)))"
    by (simp add: finalize_def k)
  show ?thesis
    using f1 f2
    by (simp add: kill_never_raises kill_effect DaemonProcess_exit_def finalize_backstop_def)
qed

theorem DaemonProcess_kill_idempotent_witness:
  "kills (snd (DaemonProcess_kill running_handle)) = 1
   \<and> still_running running_handle
   \<and> finalize_backstop (snd (DaemonProcess_exit (DaemonProcess_init, running_handle)))
       = (None, \<lparr>finalize_alive = False\<rparr>, running_handle\<lparr>kills := 1\<rparr>)"
  using DaemonProcess_kill_idempotent [of running_handle DaemonProcess_init]
  by (simp add: running_handle_def still_running_def DaemonProcess_init_def
      DaemonProcess_exit_def finalize_def DaemonProcess_kill_def kill_body_def proc_kill_def)

subsection \<open>Popup\<close>

lemma Popup_call_closed:
  "Popup_call p a k st = (Inr (op, True), p', st') \<Longrightarrow> \<not> is_open p'"
  by (auto simp: Popup_call_def split: if_splits prod.splits sum.splits)

lemma Popup_calls_closed:
  "\<not> is_open p \<Longrightarrow> Popup_calls p cs st = (replicate (length cs) (Inr (0, True)), p, st)"
  by (induction cs) (auto simp: Popup_call_def)

text \<open>
  C4. Once a call of a popup has reported \<^verbatim>\<open>closed\<close> true, its \<^verbatim>\<open>open\<close> flag is false, and
  every later call, whatever its positional and keyword arguments, returns
  \<^verbatim>\<open>(0, True)\<close>, leaves the flag false, and leaves the interface state and the number
  of invocations of the wrapped callable as they were: the render step does not run
  again.
\<close>

theorem Popup_closed_is_permanent:
  assumes "Popup_call p a k st = (Inr (op, True), p', st')"
  shows "\<not> is_open p'
    \<and> Popup_calls p' cs st' = (replicate (length cs) (Inr (0, True)), p', st')"
  using Popup_call_closed[OF assms] Popup_calls_closed by blast

theorem Popup_closed_is_permanent_witness:
  "Popup_call ex_popup [] Map.empty (1, 0) = (Inr (1, True), ex_popup\<lparr>is_open := False\<rparr>, (2, 1))
   \<and> Popup_calls (ex_popup\<lparr>is_open := False\<rparr>)
        [([Val ()], Map.empty), ([], [''popup_uuid'' \<mapsto> Str ''x''])] (2, 1)
      = ([Inr (0, True), Inr (0, True)], ex_popup\<lparr>is_open := False\<rparr>, (2, 1))"
  using Popup_closed_is_permanent
    [where p = ex_popup and a = "[]" and k = Map.empty and st = "(1, 0)" and op = 1
       and p' = "ex_popup\<lparr>is_open := False\<rparr>" and st' = "(2, 1)"
       and cs = "[([Val ()], Map.empty), ([], [''popup_uuid'' \<mapsto> Str ''x''])]"]
  by (simp add: Popup_call_def ex_popup_def ex_render_def numeral_2_eq_2)



lemma digit_code: "d < 10 \<Longrightarrow> (of_char (digit d) :: nat) = 48 + d"
  by (simp add: digit_def)

lemma digit_not_underscore: "d < 10 \<Longrightarrow> digit d \<noteq> CHR ''_''"
proof
  assume "d < 10" "digit d = CHR ''_''"
  then have "(of_char (digit d) :: nat) = of_char (CHR ''_'')" by simp
  with \<open>d < 10\<close> show False by (simp add: digit_code)
qed

text \<open>Reading the digits back gives the number, so \<^verbatim>\<open>str\<close> is injective.\<close>

lemma str_nat_value:
  "foldl (\<lambda>a c. 10 * a + (of_char c - 48)) (0::nat) (str_nat n) = n"
proof (induction n rule: str_nat.induct)
  case (1 n)
  show ?case
  proof (cases "n < 10")
    case True
    then show ?thesis by (subst str_nat.simps) (simp add: digit_code)
  next
    case False
    with 1 show ?thesis
      by (subst str_nat.simps) (simp add: digit_code)
  qed
qed

lemma str_nat_inj: "str_nat n = str_nat m \<Longrightarrow> n = m"
  by (metis str_nat_value)

lemma str_nat_no_underscore: "c \<in> set (str_nat n) \<Longrightarrow> c \<noteq> CHR ''_''"
proof (induction n rule: str_nat.induct)
  case (1 n)
  show ?case
  proof (cases "n < 10")
    case True
    with "1.prems" show ?thesis
      by (subst (asm) str_nat.simps) (simp add: digit_not_underscore)
  next
    case False
    with "1.prems" have "c \<in> set (str_nat (n div 10)) \<or> c = digit (n mod 10)"
      by (subst (asm) str_nat.simps) auto
    moreover have "digit (n mod 10) \<noteq> CHR ''_''"
      by (rule digit_not_underscore) simp
    ultimately show ?thesis using "1.IH"[OF False] by metis
  qed
qed

text \<open>The text of an id up to its first underscore is the counter it was made from.\<close>

lemma uuid_counter:
  "takeWhile (\<lambda>c. c \<noteq> CHR ''_'') (uuid (fst (Popup_init n f a k now rnd))) = str_nat n"
proof -
  have "takeWhile (\<lambda>c. c \<noteq> CHR ''_'') (str_nat n @ CHR ''_'' # (split_last now @ ''_'' @ rnd))
      = takeWhile (\<lambda>c. c \<noteq> CHR ''_'') (str_nat n)"
    by (rule takeWhile_tail) simp
  also have "\<dots> = str_nat n"
    using str_nat_no_underscore by (simp add: takeWhile_eq_all_conv)
  finally show ?thesis by (simp add: Popup_init_def)
qed

lemma create_all_counters:
  "distinct (map uuid (fst (Popup_create_all n rs)))
   \<and> (\<forall>p \<in> set (fst (Popup_create_all n rs)).
         \<exists>m\<ge>n. takeWhile (\<lambda>c. c \<noteq> CHR ''_'') (uuid p) = str_nat m)
   \<and> snd (Popup_create_all n rs) = n + length rs"
proof (induction rs arbitrary: n)
  case Nil
  then show ?case by simp
next
  case (Cons r rs)
  obtain f a k now rnd where r: "r = (f, a, k, now, rnd)" by (cases r) auto
  obtain p n1 where i: "Popup_init n f a k now rnd = (p, n1)" by (cases "Popup_init n f a k now rnd")
  then have n1: "n1 = Suc n" by (simp add: Popup_init_def)
  from i uuid_counter[of n f a k now rnd]
  have c: "takeWhile (\<lambda>c. c \<noteq> CHR ''_'') (uuid p) = str_nat n" by simp
  obtain ps n2 where ca: "Popup_create_all (Suc n) rs = (ps, n2)"
    by (cases "Popup_create_all (Suc n) rs")
  from Cons.IH[of "Suc n"] ca
  have d: "distinct (map uuid ps)"
    and m: "\<And>q. q \<in> set ps \<Longrightarrow> \<exists>m\<ge>Suc n. takeWhile (\<lambda>c. c \<noteq> CHR ''_'') (uuid q) = str_nat m"
    and l: "n2 = Suc n + length rs" by auto
  have fresh: "uuid p \<notin> set (map uuid ps)"
  proof
    assume "uuid p \<in> set (map uuid ps)"
    then obtain q where q: "q \<in> set ps" "uuid q = uuid p" by auto
    from m[OF q(1)] obtain k where "Suc n \<le> k" "takeWhile (\<lambda>c. c \<noteq> CHR ''_'') (uuid q) = str_nat k"
      by blast
    with q(2) c have "str_nat n = str_nat k" by simp
    from str_nat_inj[OF this] \<open>Suc n \<le> k\<close> show False by simp
  qed
  have all: "\<exists>m\<ge>n. takeWhile (\<lambda>c. c \<noteq> CHR ''_'') (uuid q) = str_nat m" if "q \<in> set (p # ps)" for q
  proof (cases "q = p")
    case True
    with c show ?thesis by auto
  next
    case False
    with that have "q \<in> set ps" by simp
    from m[OF this] show ?thesis using Suc_leD by blast
  qed
  have res: "Popup_create_all n (r # rs) = (p # ps, n2)"
    using r i n1 ca by simp
  show ?case
    unfolding res using d fresh all l by simp
qed

text \<open>
  C5. Popups constructed one after the other in one run of the process, from any value
  of the class counter and whatever the clock and the random string give (also the
  same for all of them), have pairwise distinct ids: each construction takes the
  counter's value into the id and increments the counter.
\<close>

theorem Popup_uuids_distinct:
  "distinct (map uuid (fst (Popup_create_all n rs)))
   \<and> snd (Popup_create_all n rs) = n + length rs"
  using create_all_counters[of n rs] by simp

theorem Popup_uuids_distinct_witness:
  "map uuid (fst (Popup_create_all 0
      [(ex_render, [], Map.empty, ''1700000000.5'', ''7''),
       (ex_render, [], Map.empty, ''1700000000.5'', ''7'')])) = [''0_5_7'', ''1_5_7'']
   \<and> ''0_5_7'' \<noteq> ''1_5_7''"
  using Popup_uuids_distinct
    [of 0 "[(ex_render, [], Map.empty, ''1700000000.5'', ''7''),
            (ex_render, [], Map.empty, ''1700000000.5'', ''7'')]"]
  by (simp add: Popup_init_def split_last_def str_nat.simps digit_def char_of_eq_iff)

subsection \<open>ChildPipe: how the line is read\<close>

lemma turns_Suc:
  "turns ev (Suc m) = wait_until_readable ev @ [Run_in_executor_readline, Sleep] @ turns ev m"
  by (simp add: turns_def)

lemma child_async_loop_trace:
  "ChildPipe_get_async_loop loads ev signalled rl n i tr0 = (res, j, tr) \<Longrightarrow>
   \<exists>m\<le>n. tr = tr0 @ turns ev m @ last_turn ev res \<and> j = i + m + last_read res \<and>
     (res = None \<longrightarrow> m = n) \<and> (res = Some Suspended \<longrightarrow> ev \<and> \<not> signalled j)"
proof (induction n arbitrary: i tr0)
  case 0
  then show ?case by (simp add: turns_def last_turn_def last_read_def)
next
  case (Suc n)
  have t1: "(if ev then tr0 @ [Event_wait, Event_clear] else tr0) = tr0 @ wait_until_readable ev"
    by (simp add: wait_until_readable_def)
  show ?case
  proof (cases "ev \<and> \<not> signalled i")
    case True
    with Suc.prems have "res = Some Suspended" "j = i" "tr = tr0 @ [Event_wait]" by auto
    with True show ?thesis
      by (intro exI[of _ 0]) (simp add: turns_def last_turn_def last_read_def)
  next
    case False
    show ?thesis
    proof (cases "loads (rl i)")
      case (Inr v)
      with False Suc.prems have "res = Some (Returned v)" "j = Suc i"
        "tr = tr0 @ wait_until_readable ev @ [Run_in_executor_readline]"
        by (auto simp: Let_def wait_until_readable_def)
      then show ?thesis
        by (intro exI[of _ 0]) (simp add: turns_def last_turn_def last_read_def)
    next
      case (Inl e)
      show ?thesis
      proof (cases "e = JSONDecodeError")
        case False
        with \<open>\<not> (ev \<and> \<not> signalled i)\<close> Inl Suc.prems have "res = Some (Raised e)" "j = Suc i"
          "tr = tr0 @ wait_until_readable ev @ [Run_in_executor_readline]"
          by (auto simp: Let_def wait_until_readable_def)
        then show ?thesis
          by (intro exI[of _ 0]) (simp add: turns_def last_turn_def last_read_def)
      next
        case True
        with \<open>\<not> (ev \<and> \<not> signalled i)\<close> Inl Suc.prems
        have "ChildPipe_get_async_loop loads ev signalled rl n (Suc i)
            ((tr0 @ wait_until_readable ev @ [Run_in_executor_readline]) @ [Sleep]) = (res, j, tr)"
          by (auto simp: Let_def wait_until_readable_def)
        from Suc.IH[OF this] obtain m where m: "m \<le> n"
          "tr = ((tr0 @ wait_until_readable ev @ [Run_in_executor_readline]) @ [Sleep])
                  @ turns ev m @ last_turn ev res"
          "j = Suc i + m + last_read res" "res = None \<longrightarrow> m = n"
          "res = Some Suspended \<longrightarrow> ev \<and> \<not> signalled j"
          by blast
        then show ?thesis
          by (intro exI[of _ "Suc m"]) (simp add: turns_Suc)
      qed
    qed
  qed
qed

text \<open>
  The claim C6 as the specification states it fails: with a running loop, a standard
  input and a working \<^verbatim>\<open>add_reader\<close> the event is registered, and \<^verbatim>\<open>get_async\<close> still
  reads both lines through \<^verbatim>\<open>run_in_executor\<close>, each after waiting for the event.
\<close>

theorem ChildPipe_get_async_nonblocking_counterexample:
  "ChildPipe_init ready_env = Inr ready_pipe
   \<and> stdin_event ready_pipe = Event
   \<and> ChildPipe_get_async ex_loads ready_pipe always_signalled (Some ex_stdin) 2 0
     = (Some (Returned 2), 2, [Event_wait, Event_clear, Run_in_executor_readline, Sleep,
                               Event_wait, Event_clear, Run_in_executor_readline])
   \<and> \<not> spec_read_strategy ready_pipe
         [Event_wait, Event_clear, Run_in_executor_readline, Sleep,
          Event_wait, Event_clear, Run_in_executor_readline]"
  by (simp add: ChildPipe_get_async_def ChildPipe_init_def ready_env_def ready_pipe_def
      spec_read_strategy_def always_signalled_def ex_loads_def ex_stdin_def Let_def
      numeral_2_eq_2)

text \<open>
  C6, amended. \<^verbatim>\<open>ChildPipe.__init__\<close> leaves a readiness event in \<^verbatim>\<open>stdin_event\<close> exactly
  when a loop is running, standard input exists and \<^verbatim>\<open>add_reader\<close> registers the
  callback; when \<^verbatim>\<open>add_reader\<close> raises \<^verbatim>\<open>NotImplementedError\<close> the slot holds \<^verbatim>\<open>None\<close>.
  In every call of \<^verbatim>\<open>get_async\<close> on a pipe with a loop and an assigned slot, whether
  the call returns, raises, waits for ever or is still in its loop after any number
  of turns, every line is read through \<^verbatim>\<open>run_in_executor\<close> on the executor thread, one
  line a turn, with \<^verbatim>\<open>sleep(0)\<close> after each rejected line. With an event each read comes
  after waiting for the event and clearing it, and the call waits for ever only
  there, when the event is not signalled; without an event the read is made at once
  and the call never waits for one.
\<close>

theorem ChildPipe_get_async_reads_in_executor:
  "((\<exists>c'. ChildPipe_init env = Inr c' \<and> stdin_event c' = Event)
      \<longleftrightarrow> running_loop env \<and> sys_stdin env \<and> add_reader env = None)
   \<and> (running_loop env \<and> sys_stdin env \<and> add_reader env = Some NotImplementedError
      \<longrightarrow> ChildPipe_init env = Inr \<lparr>loop = True, stdin_event = IsNone\<rparr>)
   \<and> (loop c \<and> stdin_event c \<noteq> Unset
        \<and> ChildPipe_get_async loads c signalled (Some rl) n i = (res, j, tr)
      \<longrightarrow> (\<exists>m\<le>n. tr = turns (stdin_event c = Event) m @ last_turn (stdin_event c = Event) res
                 \<and> j = i + m + last_read res \<and> (res = None \<longrightarrow> m = n))
          \<and> (res = Some Suspended \<longrightarrow> stdin_event c = Event \<and> \<not> signalled j))"
proof -
  have init: "(\<exists>c'. ChildPipe_init env = Inr c' \<and> stdin_event c' = Event)
      \<longleftrightarrow> running_loop env \<and> sys_stdin env \<and> add_reader env = None"
    by (auto simp: ChildPipe_init_def split: option.splits if_splits)
  have none: "ChildPipe_init env = Inr \<lparr>loop = True, stdin_event = IsNone\<rparr>"
    if "running_loop env \<and> sys_stdin env \<and> add_reader env = Some NotImplementedError"
    using that by (simp add: ChildPipe_init_def)
  have call: "(\<exists>m\<le>n. tr = turns (stdin_event c = Event) m @ last_turn (stdin_event c = Event) res
                 \<and> j = i + m + last_read res \<and> (res = None \<longrightarrow> m = n))
          \<and> (res = Some Suspended \<longrightarrow> stdin_event c = Event \<and> \<not> signalled j)"
    if a: "loop c \<and> stdin_event c \<noteq> Unset
        \<and> ChildPipe_get_async loads c signalled (Some rl) n i = (res, j, tr)"
  proof -
    from a have "ChildPipe_get_async_loop loads (stdin_event c = Event) signalled rl n i []
        = (res, j, tr)"
      by (cases "stdin_event c") (auto simp: ChildPipe_get_async_def)
    from child_async_loop_trace[OF this] show ?thesis by auto
  qed
  from init none call show ?thesis by blast
qed

theorem ChildPipe_get_async_reads_in_executor_witness:
  "ChildPipe_init ready_env = Inr ready_pipe
   \<and> ChildPipe_get_async ex_loads ready_pipe signalled_once (Some ex_stdin) 3 0
     = (Some Suspended, 1,
        [Event_wait, Event_clear, Run_in_executor_readline, Sleep, Event_wait])
   \<and> ChildPipe_get_async ex_loads \<lparr>loop = True, stdin_event = IsNone\<rparr> signalled_once
       (Some (\<lambda>j. ''noise'')) 2 0
     = (None, 2, [Run_in_executor_readline, Sleep, Run_in_executor_readline, Sleep])"
  using ChildPipe_get_async_reads_in_executor
    [where env = ready_env and loads = ex_loads and c = ready_pipe
       and signalled = signalled_once and rl = ex_stdin and n = 3 and i = 0
       and res = "Some Suspended" and j = 1
       and tr = "[Event_wait, Event_clear, Run_in_executor_readline, Sleep, Event_wait]"]
  by (simp add: ChildPipe_get_async_def ChildPipe_init_def ready_env_def ready_pipe_def
      signalled_once_def ex_loads_def ex_stdin_def Let_def numeral_2_eq_2 numeral_3_eq_3
      turns_def last_turn_def wait_until_readable_def)

subsection \<open>Timestamp\<close>

text \<open>Whatever is cached for a zero epoch is the empty string; \<^verbatim>\<open>update\<close> and
  \<^verbatim>\<open>display\<close> keep it so.\<close>

lemma ts_step_inv:
  "(\<forall>s. ts_display ts = Some s \<and> ts_value ts = 0 \<longrightarrow> s = [])
   \<Longrightarrow> (\<forall>s. ts_display (ts_step strftime ts opn) = Some s
            \<and> ts_value (ts_step strftime ts opn) = 0 \<longrightarrow> s = [])"
  by (cases opn)
    (auto simp: Timestamp_update_def Timestamp_display_def Timestamp_render_def Let_def
      split: option.splits)

lemma ts_foldl_inv:
  "(\<forall>s. ts_display ts = Some s \<and> ts_value ts = 0 \<longrightarrow> s = [])
   \<Longrightarrow> (\<forall>s. ts_display (foldl (ts_step strftime) ts ops) = Some s
            \<and> ts_value (foldl (ts_step strftime) ts ops) = 0 \<longrightarrow> s = [])"
proof (induction ops arbitrary: ts)
  case Nil
  then show ?case by simp
next
  case (Cons opn ops)
  from ts_step_inv[OF Cons.prems] show ?case
    by (simp only: foldl_Cons) (rule Cons.IH)
qed

text \<open>
  C7. Reading \<^verbatim>\<open>display\<close> always yields a string: the model of the property is a total
  function in which an exception of the formatting ends in the handler. After any
  sequence of updates and reads since its creation, a timestamp whose epoch is zero
  displays the empty string. When a read formats the epoch, nothing being cached, and
  the formatting with the current format raises, the read returns \<^verbatim>\<open>"Bad format!"\<close>.
\<close>

theorem Timestamp_display_total:
  "(ts_value (ts_run strftime t0 ops) = 0
      \<longrightarrow> fst (Timestamp_display strftime fmt (ts_run strftime t0 ops)) = [])
   \<and> (ts_display ts = None \<and> ts_value ts \<noteq> 0 \<and> strftime (ts_value ts) fmt = Inl e
      \<longrightarrow> fst (Timestamp_display strftime fmt ts) = ''Bad format!'')"
proof (intro conjI impI)
  assume z: "ts_value (ts_run strftime t0 ops) = 0"
  have "\<forall>s. ts_display (ts_run strftime t0 ops) = Some s
      \<and> ts_value (ts_run strftime t0 ops) = 0 \<longrightarrow> s = []"
    unfolding ts_run_def by (rule ts_foldl_inv) (simp add: Timestamp_init_def)
  with z show "fst (Timestamp_display strftime fmt (ts_run strftime t0 ops)) = []"
    by (auto simp: Timestamp_display_def Timestamp_render_def Let_def split: option.splits)
next
  assume "ts_display ts = None \<and> ts_value ts \<noteq> 0 \<and> strftime (ts_value ts) fmt = Inl e"
  then show "fst (Timestamp_display strftime fmt ts) = ''Bad format!''"
    by (simp add: Timestamp_display_def Timestamp_render_def Let_def)
qed

theorem Timestamp_display_total_witness:
  "fst (Timestamp_display ex_strftime ''%Y''
         (ts_run ex_strftime (PyInt 5)
            [Display ''%Y'', Update (Some (PyFloat (1/2))), Display ''%Y''])) = []
   \<and> fst (Timestamp_display ex_strftime ''%'' (Timestamp_init (PyInt 5))) = ''Bad format!''"
  using Timestamp_display_total
    [where strftime = ex_strftime and ?t0.0 = "PyInt 5"
       and ops = "[Display ''%Y'', Update (Some (PyFloat (1/2))), Display ''%Y'']"
       and fmt = "''%Y''"]
    Timestamp_display_total
    [where strftime = ex_strftime and ts = "Timestamp_init (PyInt 5)" and fmt = "''%''"
       and e = "Exception ''Invalid format string''"]
  by (simp add: ts_run_def Timestamp_init_def Timestamp_update_def Timestamp_display_def
      Timestamp_render_def ex_strftime_def Let_def)

text \<open>
  C8. \<^verbatim>\<open>update\<close> with a value stores \<^verbatim>\<open>int(value)\<close> as the epoch and clears the cached
  display, so the next read of \<^verbatim>\<open>display\<close> is the rendering of the new epoch under the
  current format, whatever was cached before. \<^verbatim>\<open>update\<close> without a value clears the
  cached display and leaves the epoch as it was.
\<close>

theorem Timestamp_update_effect:
  "Timestamp_update (Some t) ts = \<lparr>ts_value = py_int t, ts_display = None\<rparr>
   \<and> fst (Timestamp_display strftime fmt (Timestamp_update (Some t) ts))
       = Timestamp_render strftime fmt (py_int t)
   \<and> ts_value (Timestamp_update None ts) = ts_value ts
   \<and> ts_display (Timestamp_update None ts) = None"
  by (cases ts) (simp add: Timestamp_update_def Timestamp_display_def Let_def)

theorem Timestamp_update_effect_witness:
  "fst (Timestamp_display ex_strftime ''%Y''
         (Timestamp_update (Some (PyInt 7))
            (snd (Timestamp_display ex_strftime ''%'' (Timestamp_init (PyInt 5)))))) = ''2023''
   \<and> ts_value (Timestamp_update None (Timestamp_init (PyInt 5))) = 5"
  using Timestamp_update_effect
    [where t = "PyInt 7" and strftime = ex_strftime and fmt = "''%Y''"
       and ts = "snd (Timestamp_display ex_strftime ''%'' (Timestamp_init (PyInt 5)))"]
  by (simp add: Timestamp_render_def ex_strftime_def Timestamp_init_def Timestamp_update_def
      Timestamp_display_def Let_def)

subsection \<open>ChildPipe: the blocking read\<close>




end
